theory Spec2Isabelle
  imports Complex_Main
begin

section \<open>JavaScript numbers\<close>

text \<open>
  A JavaScript number is an IEEE double. The embedding keeps the three non-finite values
  apart from the finite ones and idealises the finite ones as real numbers: arithmetic on
  finite values is exact (no rounding of intermediate results, no overflow, no negative
  zero). Where a function of the source only ever computes on values that passed an
  \<^verbatim>\<open>isFinite\<close> guard, its model works on \<open>real\<close> directly.
\<close>

datatype jsnum = Fin real | NaN | PosInf | NegInf


definition Math_round :: "real \<Rightarrow> real" where
  \<comment> \<open>\<^verbatim>\<open>Math.round\<close>: nearest integer, ties towards plus infinity.\<close>
  "Math_round x = of_int \<lfloor>x + 1 / 2\<rfloor>"

definition Math_floor :: "real \<Rightarrow> real" where
  "Math_floor x = of_int \<lfloor>x\<rfloor>"

definition Number_isInteger :: "real \<Rightarrow> bool" where
  "Number_isInteger x = (x = of_int \<lfloor>x\<rfloor>)"

definition toFixed :: "nat \<Rightarrow> real \<Rightarrow> real" where
  \<comment> \<open>\<^verbatim>\<open>+x.toFixed(d)\<close> on a finite \<open>x\<close>: the decimal with \<open>d\<close> fraction digits nearest to
      \<open>x\<close>, a tie going to the larger magnitude, read back as a number. From \<open>10^21\<close> on
      \<^verbatim>\<open>toFixed\<close> prints the number itself.\<close>
  "toFixed d x =
     (if \<bar>x\<bar> \<ge> 10 ^ 21 then x
      else if x < 0 then - (of_int \<lfloor>(- x) * 10 ^ d + 1 / 2\<rfloor> / 10 ^ d)
      else of_int \<lfloor>x * 10 ^ d + 1 / 2\<rfloor> / 10 ^ d)"

definition reduce_sum :: "real list \<Rightarrow> real" where
  \<comment> \<open>\<^verbatim>\<open>xs.reduce((a, b) => a + b, 0)\<close>\<close>
  "reduce_sum xs = foldl (+) 0 xs"

section \<open>Duct sizing: CFM splitting\<close>

text \<open>
  The second argument of \<^verbatim>\<open>splitCFM\<close> is an array of ratios, a number (the count of equal
  parts) or anything else. The ratios of the model are finite numbers, on which
  \<^verbatim>\<open>Number(r) || 0\<close> is the identity.
\<close>

datatype split_arg = Ratios "real list" | Count real | Other

definition initial_parts :: "real \<Rightarrow> split_arg \<Rightarrow> real list" where
  \<comment> \<open>The array \<^verbatim>\<open>parts\<close> of \<^verbatim>\<open>splitCFM\<close> before the rounding errors are normalised.\<close>
  "initial_parts t ratiosOrCount =
     (case ratiosOrCount of
        Ratios rs \<Rightarrow>
          let s = reduce_sum rs;
              sum = (if s = 0 then 1 else s)
          in map (\<lambda>r. Math_round (r / sum * t)) rs
      | Count n \<Rightarrow>
          if Number_isInteger n \<and> n > 0 then
            let base = Math_floor (t / n);
                rem = t - base * n
            in map (\<lambda>i. base + (if real i < rem then 1 else 0)) [0..<nat \<lfloor>n\<rfloor>]
          else []
      | Other \<Rightarrow> [])"

definition splitCFM :: "jsnum \<Rightarrow> split_arg \<Rightarrow> real list" where
  "splitCFM totalCFM ratiosOrCount =
     (case totalCFM of
        Fin t \<Rightarrow>
          if t \<le> 0 then []
          else
            let parts = initial_parts t ratiosOrCount;
                diff = t - reduce_sum parts
            in if diff \<noteq> 0 \<and> parts \<noteq> [] then (hd parts + diff) # tl parts else parts
      | _ \<Rightarrow> [])"

section \<open>Duct sizing: areas, velocity and the round-duct selector\<close>

definition areaRound :: "real \<Rightarrow> real" where
  "areaRound diaIn = (let r = (diaIn / 2) / 12 in pi * r * r)"

definition areaRect :: "real \<Rightarrow> real \<Rightarrow> real" where
  "areaRect wIn hIn = (wIn / 12) * (hIn / 12)"

definition velocity :: "jsnum \<Rightarrow> jsnum \<Rightarrow> real option" where
  \<comment> \<open>\<open>None\<close> is \<^verbatim>\<open>null\<close>.\<close>
  "velocity cfm areaFt2 =
     (case (cfm, areaFt2) of
        (Fin c, Fin a) \<Rightarrow> if a \<le> 0 then None else Some (toFixed 0 (c / a))
      | _ \<Rightarrow> None)"

record round_duct =
  dia :: jsnum
  fpm :: "real option"
  areaFt2 :: jsnum

definition sizeRoundDuct :: "jsnum \<Rightarrow> real \<Rightarrow> real \<Rightarrow> real \<Rightarrow> bool \<Rightarrow> round_duct option" where
  \<comment> \<open>\<^verbatim>\<open>sizeRoundDuct(cfm, targetFPM, minDia, maxDia, even)\<close> with every argument given;
      \<open>toEven\<close> is the flag \<^verbatim>\<open>even\<close>.
      A target of zero makes the area and the first diameter infinite, so that the clamp
      yields \<^verbatim>\<open>Math.max(minDia, maxDia)\<close>; a negative target makes the square root, and
      with it every later value, \<^verbatim>\<open>NaN\<close>.\<close>
  "sizeRoundDuct cfm targetFPM minDia maxDia toEven =
     (case cfm of
        Fin c \<Rightarrow>
          if c \<le> 0 then None
          else if targetFPM < 0 then Some \<lparr>dia = NaN, fpm = None, areaFt2 = NaN\<rparr>
          else
            let d =
                  (if targetFPM = 0 then max minDia maxDia
                   else
                     let area = c / targetFPM;
                         d0 = sqrt ((area * 144 * 4) / pi);
                         d1 = (if toEven then Math_round (d0 / 2) * 2 else Math_round d0)
                     in max minDia (min maxDia d1));
                aFt2 = areaRound d
            in Some \<lparr>dia = Fin d, fpm = velocity (Fin c) (Fin aFt2), areaFt2 = Fin (toFixed 3 aFt2)\<rparr>
      | _ \<Rightarrow> None)"

section \<open>Duct sizing: friction rate\<close>




fun js_toFixed :: "nat \<Rightarrow> jsnum \<Rightarrow> jsnum" where
  \<comment> \<open>\<^verbatim>\<open>+x.toFixed(d)\<close>: the non-finite values print as their names and read back unchanged.\<close>
  "js_toFixed d (Fin x) = Fin (toFixed d x)"
| "js_toFixed d x = x"


section \<open>Duct sizing: returns and the plan generator\<close>

record grille =
  grille_w :: real
  grille_h :: real
  grille_fpm :: "real option"
  faceAreaFt2 :: real

record return_sizing =
  return_areaFt2 :: jsnum
  grilleSizes :: "grille list"
  note_maxFaceVel :: real

definition rank_key :: "real \<Rightarrow> grille \<Rightarrow> real" where
  \<comment> \<open>\<^verbatim>\<open>Math.abs(maxFaceVel - a.fpm)\<close>; \<^verbatim>\<open>null\<close> counts as 0 in the subtraction.\<close>
  "rank_key maxFaceVel g = \<bar>maxFaceVel - (case grille_fpm g of None \<Rightarrow> 0 | Some v \<Rightarrow> v)\<bar>"

definition returnSizing :: "jsnum \<Rightarrow> real \<Rightarrow> return_sizing option" where
  \<comment> \<open>The field \<open>note_maxFaceVel\<close> stands for the note, a fixed sentence around
      \<^verbatim>\<open>maxFaceVel\<close>. \<^verbatim>\<open>Array.prototype.sort\<close> is stable, as \<open>sort_key\<close> is.\<close>
  "returnSizing totalCFM maxFaceVel =
     (case totalCFM of
        Fin t \<Rightarrow>
          if t \<le> 0 then None
          else
            let options =
                  map (\<lambda>(wi, hi).
                         let a = areaRect wi hi; v = velocity (Fin t) (Fin a)
                         in \<lparr>grille_w = wi, grille_h = hi, grille_fpm = v, faceAreaFt2 = toFixed 3 a\<rparr>)
                    [(20, 25), (24, 24), (16, 25), (14, 30), (12, 36)]
            in Some \<lparr>return_areaFt2 =
                        (if maxFaceVel = 0 then PosInf else Fin (toFixed 3 (t / maxFaceVel))),
                      grilleSizes = sort_key (rank_key maxFaceVel) options,
                      note_maxFaceVel = maxFaceVel\<rparr>
      | _ \<Rightarrow> None)"

datatype error = TypeError

text \<open>
  In a branch and in a sub-plenum, \<open>name\<close> holds the numbers that the source prints into
  \<^verbatim>\<open>B<idx+1>.<i+1>\<close> and \<^verbatim>\<open>Sub-Plenum <idx+1>\<close>, and the suggestion string is left to its two
  parts, the diameter and the velocity. Reading \<^verbatim>\<open>pick.dia\<close> or \<^verbatim>\<open>trunk.dia\<close> of a \<^verbatim>\<open>null\<close>
  sizing result throws a \<^verbatim>\<open>TypeError\<close>.
\<close>

record branch =
  branch_name :: "nat \<times> nat"
  branch_cfm :: real
  branch_dia :: jsnum
  branch_fpm :: "real option"

record sub_plenum =
  sub_name :: nat
  sub_cfm :: real
  trunk_dia :: jsnum
  trunk_fpm :: "real option"
  branches :: "branch list"

record plan =
  plan_totalCFM :: jsnum
  plan_trunkFPM :: real
  plan_branchFPM :: real
  subPlenums :: "sub_plenum list"
  returns :: "return_sizing option"

fun map_indexed :: "(nat \<Rightarrow> 'a \<Rightarrow> error + 'b) \<Rightarrow> nat \<Rightarrow> 'a list \<Rightarrow> error + 'b list" where
  \<comment> \<open>\<^verbatim>\<open>xs.map((x, i) => f(i, x))\<close> from index \<open>i\<close> on; a throwing callback ends the map.\<close>
  "map_indexed f i [] = Inr []"
| "map_indexed f i (x # xs) =
     (case f i x of
        Inl e \<Rightarrow> Inl e
      | Inr y \<Rightarrow> (case map_indexed f (Suc i) xs of Inl e \<Rightarrow> Inl e | Inr ys \<Rightarrow> Inr (y # ys)))"

definition makeBranch :: "real \<Rightarrow> nat \<Rightarrow> nat \<Rightarrow> real \<Rightarrow> error + branch" where
  "makeBranch branchFPM idx i q =
     (case sizeRoundDuct (Fin q) branchFPM 6 16 True of
        None \<Rightarrow> Inl TypeError
      | Some pick \<Rightarrow>
          Inr \<lparr>branch_name = (idx + 1, i + 1), branch_cfm = q,
               branch_dia = dia pick, branch_fpm = fpm pick\<rparr>)"

definition makeSubPlenum :: "real \<Rightarrow> real \<Rightarrow> nat \<Rightarrow> real \<Rightarrow> error + sub_plenum" where
  "makeSubPlenum trunkFPM branchFPM idx cfmSub =
     (let trunk = sizeRoundDuct (Fin cfmSub) trunkFPM 8 24 True;
          branchCount = 5;
          branchesCFM = splitCFM (Fin cfmSub) (Count branchCount)
      in case map_indexed (makeBranch branchFPM idx) 0 branchesCFM of
           Inl e \<Rightarrow> Inl e
         | Inr bs \<Rightarrow>
             (case trunk of
                None \<Rightarrow> Inl TypeError
              | Some tr \<Rightarrow>
                  Inr \<lparr>sub_name = idx + 1, sub_cfm = cfmSub,
                       trunk_dia = dia tr, trunk_fpm = fpm tr, branches = bs\<rparr>))"

definition default_split :: split_arg where
  "default_split = Ratios [0.4, 0.35, 0.25]"

definition generateSubPlenumPlan ::
    "jsnum \<Rightarrow> split_arg \<Rightarrow> real \<Rightarrow> real \<Rightarrow> error + plan option" where
  \<comment> \<open>\<^verbatim>\<open>generateSubPlenumPlan(totalCFM, split, trunkFPM, branchFPM)\<close> with every argument
      given (an omitted \<^verbatim>\<open>split\<close> is \<open>default_split\<close>, omitted targets are 800 and 700).
      \<open>Inr None\<close> is \<^verbatim>\<open>null\<close>, \<open>Inl TypeError\<close> an exception that leaves the function.
      \<^verbatim>\<open>Math.round(Number(totalCFM) || 0)\<close> is 0 on \<^verbatim>\<open>NaN\<close> and keeps the infinities.\<close>
  "generateSubPlenumPlan totalCFM split trunkFPM branchFPM =
     (case totalCFM of
        NaN \<Rightarrow> Inr None
      | NegInf \<Rightarrow> Inr None
      | PosInf \<Rightarrow>
          (case map_indexed (makeSubPlenum trunkFPM branchFPM) 0 (splitCFM PosInf split) of
             Inl e \<Rightarrow> Inl e
           | Inr subs \<Rightarrow>
               Inr (Some \<lparr>plan_totalCFM = PosInf, plan_trunkFPM = trunkFPM,
                          plan_branchFPM = branchFPM,
                          subPlenums = subs, returns = returnSizing PosInf 450\<rparr>))
      | Fin x \<Rightarrow>
          let cfm = Math_round x
          in if cfm \<le> 0 then Inr None
             else
               (case map_indexed (makeSubPlenum trunkFPM branchFPM) 0 (splitCFM (Fin cfm) split) of
                  Inl e \<Rightarrow> Inl e
                | Inr subs \<Rightarrow>
                    Inr (Some \<lparr>plan_totalCFM = Fin cfm, plan_trunkFPM = trunkFPM,
                               plan_branchFPM = branchFPM,
                               subPlenums = subs, returns = returnSizing (Fin cfm) 450\<rparr>)))"

section \<open>Refrigerant diagnostics: pressure-temperature tables\<close>

text \<open>A table is an array of pairs \<^verbatim>\<open>[PSIG, saturation temperature]\<close>.\<close>

type_synonym pt_table = "(real \<times> real) list"

definition PT_R410A :: pt_table where
  "PT_R410A =
     [(90, 26), (110, 33), (130, 39), (150, 45), (170, 50), (190, 55),
      (210, 60), (230, 64), (250, 68), (275, 73), (300, 77), (325, 81),
      (350, 85)]"

definition PT_R22 :: pt_table where
  "PT_R22 =
     [(50, 28), (60, 33), (70, 38), (80, 42), (90, 46), (100, 50),
      (110, 54), (120, 57), (130, 60), (150, 66), (170, 71), (190, 76)]"

definition PT_R454B :: pt_table where
  "PT_R454B =
     [(90, 22), (110, 29), (130, 35), (150, 41), (170, 46), (190, 51),
      (210, 56), (230, 60), (250, 64), (275, 69), (300, 73), (325, 77)]"

definition PT_R32 :: pt_table where
  "PT_R32 =
     [(90, 16), (110, 22), (130, 28), (150, 33), (170, 38), (190, 43),
      (210, 47), (230, 51), (250, 55), (275, 60), (300, 64), (325, 67)]"

definition PT_TABLES :: "string \<rightharpoonup> pt_table" where
  "PT_TABLES =
     map_of [(''R410A'', PT_R410A), (''R22'', PT_R22), (''R454B'', PT_R454B), (''R32'', PT_R32)]"

fun interpolate_loop :: "real \<Rightarrow> pt_table \<Rightarrow> jsnum option" where
  \<comment> \<open>The \<^verbatim>\<open>for\<close> loop of \<^verbatim>\<open>interpolatePT\<close> over the adjacent pairs \<open>t[i]\<close>, \<open>t[i + 1]\<close>;
      \<open>None\<close> when it ends without returning. Two equal pressures that both equal \<open>p\<close>
      make the ratio \<open>0 / 0\<close>.\<close>
  "interpolate_loop p ((p1, f1) # (p2, f2) # rest) =
     (if p \<ge> p1 \<and> p \<le> p2 then
        (if p2 - p1 = 0 then Some NaN
         else let r = (p - p1) / (p2 - p1) in Some (Fin (f1 + r * (f2 - f1))))
      else interpolate_loop p ((p2, f2) # rest))"
| "interpolate_loop p _ = None"

definition interpolatePT :: "jsnum \<Rightarrow> pt_table \<Rightarrow> error + jsnum" where
  \<comment> \<open>Reading \<^verbatim>\<open>t[0][0]\<close> of an empty table throws. Every comparison with \<^verbatim>\<open>NaN\<close> is
      false, which leads to the fallback after the loop.\<close>
  "interpolatePT psig t =
     (case t of
        [] \<Rightarrow> Inl TypeError
      | (p0, f0) # _ \<Rightarrow>
          (case psig of
             Fin p \<Rightarrow>
               if p \<le> p0 then Inr (Fin f0)
               else if p \<ge> fst (last t) then Inr (Fin (snd (last t)))
               else (case interpolate_loop p t of Some v \<Rightarrow> Inr v | None \<Rightarrow> Inr (Fin f0))
           | NegInf \<Rightarrow> Inr (Fin f0)
           | PosInf \<Rightarrow> Inr (Fin (snd (last t)))
           | NaN \<Rightarrow> Inr (Fin f0)))"

definition toUpperCase_char :: "char \<Rightarrow> char" where
  "toUpperCase_char c =
     (case map_of (zip ''abcdefghijklmnopqrstuvwxyz'' ''ABCDEFGHIJKLMNOPQRSTUVWXYZ'') c of
        Some u \<Rightarrow> u
      | None \<Rightarrow> c)"

definition toLowerCase_char :: "char \<Rightarrow> char" where
  "toLowerCase_char c =
     (case map_of (zip ''ABCDEFGHIJKLMNOPQRSTUVWXYZ'' ''abcdefghijklmnopqrstuvwxyz'') c of
        Some l \<Rightarrow> l
      | None \<Rightarrow> c)"

definition toUpperCase :: "string \<Rightarrow> string" where
  \<comment> \<open>on ASCII strings\<close>
  "toUpperCase s = map toUpperCase_char s"

definition toLowerCase :: "string \<Rightarrow> string" where
  \<comment> \<open>on ASCII strings\<close>
  "toLowerCase s = map toLowerCase_char s"

definition select_table :: "string \<Rightarrow> pt_table" where
  \<comment> \<open>The constant \<^verbatim>\<open>table\<close> of \<^verbatim>\<open>psigToSaturationTemp\<close>; \<^verbatim>\<open>refrigerant || 'R410A'\<close>
      replaces the empty string.\<close>
  "select_table refrigerant =
     (let ref = toUpperCase (if refrigerant = [] then ''R410A'' else refrigerant)
      in case PT_TABLES ref of Some t \<Rightarrow> t | None \<Rightarrow> PT_R410A)"

definition psigToSaturationTemp :: "jsnum \<Rightarrow> string \<Rightarrow> error + jsnum" where
  "psigToSaturationTemp psig refrigerant =
     (case interpolatePT psig (select_table refrigerant) of
        Inl e \<Rightarrow> Inl e
      | Inr v \<Rightarrow> Inr (js_toFixed 1 v))"

section \<open>Refrigerant diagnostics: health evaluation\<close>

text \<open>
  Every message of the source is a fixed sentence around the value it reports. The
  constructors below name the fifteen sentences in the order of the source:
  three for delta-T, then for a TXV three for subcool and three for superheat, then for a
  fixed orifice three for superheat and three for subcool; each carries the value.
\<close>

datatype message_text =
    Low_delta_T real
  | High_delta_T real
  | Delta_T_in_expected_range real
  | Low_subcool_undercharge_or_restricted_metering real
  | High_subcool_overcharge_or_condenser_airflow_issue real
  | Subcool_looks_good real
  | Very_low_superheat_flooding real
  | High_superheat_low_charge_TXV_starved_or_low_airflow real
  | Superheat_reasonable real
  | Low_superheat_overcharge_or_low_airflow real
  | High_superheat_undercharge_or_restriction real
  | Superheat_acceptable_for_fixed_orifice real
  | Low_subcool_undercharge_on_fixed_orifice real
  | High_subcool_overcharge_or_condenser_airflow_problem real
  | Subcool_within_expected_range real

record health_message =
  level :: string
  message :: message_text

text \<open>
  The argument object: an absent property is \<open>None\<close>, and \<^verbatim>\<open>isFinite(undefined)\<close> is
  false. An absent or empty \<^verbatim>\<open>meteringDevice\<close> is \<^verbatim>\<open>'txv'\<close>.
\<close>

record readings =
  deltaT :: "jsnum option"
  superheat :: "jsnum option"
  subcool :: "jsnum option"
  meteringDevice :: "string option"

fun finite_value :: "jsnum option \<Rightarrow> real option" where
  \<comment> \<open>the value when \<^verbatim>\<open>isFinite\<close> holds of it\<close>
  "finite_value (Some (Fin x)) = Some x"
| "finite_value _ = None"

definition is_txv :: "string option \<Rightarrow> bool" where
  "is_txv md =
     (toLowerCase (case md of None \<Rightarrow> ''txv'' | Some s \<Rightarrow> if s = [] then ''txv'' else s) = ''txv'')"

definition evaluateCoolingHealth :: "readings \<Rightarrow> health_message list" where
  "evaluateCoolingHealth r =
     (let txv = is_txv (meteringDevice r);
          delta_msgs =
            (case finite_value (deltaT r) of
               None \<Rightarrow> []
             | Some d \<Rightarrow>
                 if d < 14 then [\<lparr>level = ''warn'', message = Low_delta_T d\<rparr>]
                 else if d > 24 then [\<lparr>level = ''warn'', message = High_delta_T d\<rparr>]
                 else [\<lparr>level = ''ok'', message = Delta_T_in_expected_range d\<rparr>])
      in delta_msgs @
         (if txv then
            (case finite_value (subcool r) of
               None \<Rightarrow> []
             | Some sc \<Rightarrow>
                 if sc < 6 then
                   [\<lparr>level = ''warn'', message = Low_subcool_undercharge_or_restricted_metering sc\<rparr>]
                 else if sc > 14 then
                   [\<lparr>level = ''warn'',
                     message = High_subcool_overcharge_or_condenser_airflow_issue sc\<rparr>]
                 else [\<lparr>level = ''ok'', message = Subcool_looks_good sc\<rparr>]) @
            (case finite_value (superheat r) of
               None \<Rightarrow> []
             | Some sh \<Rightarrow>
                 if sh < 5 then [\<lparr>level = ''warn'', message = Very_low_superheat_flooding sh\<rparr>]
                 else if sh > 20 then
                   [\<lparr>level = ''warn'',
                     message = High_superheat_low_charge_TXV_starved_or_low_airflow sh\<rparr>]
                 else [\<lparr>level = ''ok'', message = Superheat_reasonable sh\<rparr>])
          else
            (case finite_value (superheat r) of
               None \<Rightarrow> []
             | Some sh \<Rightarrow>
                 if sh < 8 then
                   [\<lparr>level = ''warn'', message = Low_superheat_overcharge_or_low_airflow sh\<rparr>]
                 else if sh > 25 then
                   [\<lparr>level = ''warn'', message = High_superheat_undercharge_or_restriction sh\<rparr>]
                 else [\<lparr>level = ''ok'', message = Superheat_acceptable_for_fixed_orifice sh\<rparr>]) @
            (case finite_value (subcool r) of
               None \<Rightarrow> []
             | Some sc \<Rightarrow>
                 if sc < 5 then
                   [\<lparr>level = ''warn'', message = Low_subcool_undercharge_on_fixed_orifice sc\<rparr>]
                 else if sc > 15 then
                   [\<lparr>level = ''warn'',
                     message = High_subcool_overcharge_or_condenser_airflow_problem sc\<rparr>]
                 else [\<lparr>level = ''ok'', message = Subcool_within_expected_range sc\<rparr>])))"

text \<open>
  A table ascends when, from each point to every later one, the pressure grows strictly
  and the temperature does not fall.
\<close>

abbreviation (input) ascending :: "pt_table \<Rightarrow> bool" where
  "ascending t \<equiv> sorted_wrt (\<lambda>a b. fst a < fst b \<and> snd a \<le> snd b) t"

section \<open>Properties of CFM splitting\<close>











section \<open>Properties of the pressure-temperature interpolation\<close>

lemma select_table_cases:
  "select_table ref \<in> {PT_R410A, PT_R22, PT_R454B, PT_R32}"
  by (auto simp add: select_table_def PT_TABLES_def Let_def split: option.splits if_splits)

lemma tables_ascending:
  "ascending PT_R410A" "ascending PT_R22" "ascending PT_R454B" "ascending PT_R32"
  by (simp_all add: PT_R410A_def PT_R22_def PT_R454B_def PT_R32_def)

lemma select_table_ascending: "ascending (select_table ref)"
  using select_table_cases [of ref] tables_ascending by auto

lemma select_table_nonempty: "select_table ref \<noteq> []"
  using select_table_cases [of ref] by (auto simp: PT_R410A_def PT_R22_def PT_R454B_def PT_R32_def)


lemma lin_bounds:
  assumes "p1 < p2" "f1 \<le> f2" "p1 \<le> p" "p \<le> p2"
  shows "f1 \<le> f1 + (p - p1) / (p2 - p1) * (f2 - f1)"
    and "f1 + (p - p1) / (p2 - p1) * (f2 - f1) \<le> (f2::real)"
proof -
  define r where "r = (p - p1) / (p2 - p1)"
  have r0: "0 \<le> r" using assms by (simp add: r_def)
  have r1: "r \<le> 1" using assms by (simp add: r_def)
  have "0 \<le> r * (f2 - f1)"
    using r0 assms(2) by (intro mult_nonneg_nonneg) simp_all
  then show "f1 \<le> f1 + (p - p1) / (p2 - p1) * (f2 - f1)"
    unfolding r_def by linarith
  have "r * (f2 - f1) \<le> f2 - f1"
    using mult_right_mono [of r 1 "f2 - f1"] r1 assms(2) by simp
  then show "f1 + (p - p1) / (p2 - p1) * (f2 - f1) \<le> f2"
    unfolding r_def by linarith
qed

lemma lin_mono:
  assumes "p1 < p2" "f1 \<le> f2" "p \<le> q"
  shows "f1 + (p - p1) / (p2 - p1) * (f2 - f1) \<le> f1 + (q - p1) / (p2 - p1) * (f2 - (f1::real))"
proof -
  have "(p - p1) / (p2 - p1) \<le> (q - p1) / (p2 - p1)"
    using assms by (simp add: divide_right_mono)
  then have "(p - p1) / (p2 - p1) * (f2 - f1) \<le> (q - p1) / (p2 - p1) * (f2 - f1)"
    using assms(2) by (intro mult_right_mono) simp_all
  then show ?thesis by linarith
qed

lemma loop_inside:
  "p1 \<le> p \<Longrightarrow> p \<le> p2 \<Longrightarrow> p1 < p2 \<Longrightarrow>
   interpolate_loop p ((p1, f1) # (p2, f2) # rest) =
     Some (Fin (f1 + (p - p1) / (p2 - p1) * (f2 - f1)))"
  by simp

lemma loop_outside:
  "\<not> (p \<ge> p1 \<and> p \<le> p2) \<Longrightarrow>
   interpolate_loop p ((p1, f1) # (p2, f2) # rest) = interpolate_loop p ((p2, f2) # rest)"
  by (cases "p1 \<le> p"; cases "p \<le> p2"; simp)

lemma ascending_last:
  "ascending (a # t) \<Longrightarrow> snd a \<le> snd (last (a # t)) \<and> fst a \<le> fst (last (a # t))"
  by (cases "t = []") (auto simp: less_imp_le)

lemma loop_lower:
  "ascending t \<Longrightarrow> interpolate_loop q t = Some (Fin b) \<Longrightarrow> snd (hd t) \<le> b"
proof (induction q t rule: interpolate_loop.induct)
  case (1 p p1 f1 p2 f2 rest)
  have a: "p1 < p2" "f1 \<le> f2" using "1.prems"(1) by simp_all
  have tl: "ascending ((p2, f2) # rest)" using "1.prems"(1) by simp
  show ?case
  proof (cases "p \<ge> p1 \<and> p \<le> p2")
    case True
    then have "b = f1 + (p - p1) / (p2 - p1) * (f2 - f1)"
      using "1.prems"(2) a(1) by (simp only: loop_inside option.inject jsnum.inject)
    then show ?thesis using lin_bounds(1) [OF a] True by simp
  next
    case False
    have "interpolate_loop p ((p2, f2) # rest) = Some (Fin b)"
      using "1.prems"(2) by (simp only: loop_outside [OF False])
    then have "f2 \<le> b" using "1.IH" [OF False tl] by simp
    then show ?thesis using a by simp
  qed
qed simp_all

lemma loop_upper:
  "ascending t \<Longrightarrow> interpolate_loop p t = Some (Fin a) \<Longrightarrow> a \<le> snd (last t)"
proof (induction p t rule: interpolate_loop.induct)
  case (1 p p1 f1 p2 f2 rest)
  have a: "p1 < p2" "f1 \<le> f2" using "1.prems"(1) by simp_all
  have tl: "ascending ((p2, f2) # rest)" using "1.prems"(1) by simp
  have lst: "last ((p1, f1) # (p2, f2) # rest) = last ((p2, f2) # rest)" by simp
  show ?case
  proof (cases "p \<ge> p1 \<and> p \<le> p2")
    case True
    then have "a = f1 + (p - p1) / (p2 - p1) * (f2 - f1)"
      using "1.prems"(2) a(1) by (simp only: loop_inside option.inject jsnum.inject)
    then have "a \<le> f2" using lin_bounds(2) [OF a] True by simp
    moreover have "f2 \<le> snd (last ((p2, f2) # rest))"
      using ascending_last [OF tl] by simp
    ultimately show ?thesis unfolding lst by linarith
  next
    case False
    have "interpolate_loop p ((p2, f2) # rest) = Some (Fin a)"
      using "1.prems"(2) by (simp only: loop_outside [OF False])
    then show ?thesis using "1.IH" [OF False tl] unfolding lst by simp
  qed
qed simp_all

lemma loop_total:
  "ascending t \<Longrightarrow> fst (hd t) \<le> p \<Longrightarrow> p \<le> fst (last t) \<Longrightarrow> 2 \<le> length t \<Longrightarrow>
   \<exists>v. interpolate_loop p t = Some (Fin v)"
proof (induction p t rule: interpolate_loop.induct)
  case (1 p p1 f1 p2 f2 rest)
  have a: "p1 < p2" using "1.prems"(1) by simp
  have tl: "ascending ((p2, f2) # rest)" using "1.prems"(1) by simp
  have lst: "last ((p1, f1) # (p2, f2) # rest) = last ((p2, f2) # rest)" by simp
  show ?case
  proof (cases "p \<ge> p1 \<and> p \<le> p2")
    case True
    then show ?thesis using a by (simp only: loop_inside) blast
  next
    case False
    then have gt: "p2 < p" using "1.prems"(2) by auto
    have ple: "p \<le> fst (last ((p2, f2) # rest))" using "1.prems"(3) unfolding lst .
    then have "rest \<noteq> []" using gt by auto
    then have len: "2 \<le> length ((p2, f2) # rest)" by (cases rest) simp_all
    have "fst (hd ((p2, f2) # rest)) \<le> p" using gt by simp
    then have "\<exists>v. interpolate_loop p ((p2, f2) # rest) = Some (Fin v)"
      using "1.IH" [OF False tl _ ple len] by blast
    then show ?thesis by (simp only: loop_outside [OF False])
  qed
qed simp_all

lemma loop_mono:
  "ascending t \<Longrightarrow> fst (hd t) \<le> p \<Longrightarrow> p \<le> q \<Longrightarrow>
   interpolate_loop p t = Some (Fin a) \<Longrightarrow> interpolate_loop q t = Some (Fin b) \<Longrightarrow> a \<le> b"
proof (induction p t rule: interpolate_loop.induct)
  case (1 p p1 f1 p2 f2 rest)
  have asc: "p1 < p2" "f1 \<le> f2" using "1.prems"(1) by simp_all
  have tl: "ascending ((p2, f2) # rest)" using "1.prems"(1) by simp
  have p1p: "p1 \<le> p" using "1.prems"(2) by simp
  have p1q: "p1 \<le> q" using p1p "1.prems"(3) by simp
  show ?case
  proof (cases "p \<ge> p1 \<and> p \<le> p2")
    case True
    then have pp2: "p \<le> p2" by simp
    have a: "a = f1 + (p - p1) / (p2 - p1) * (f2 - f1)"
      using "1.prems"(4) by (simp only: loop_inside [OF p1p pp2 asc(1)] option.inject jsnum.inject)
    show ?thesis
    proof (cases "q \<le> p2")
      case q: True
      have "b = f1 + (q - p1) / (p2 - p1) * (f2 - f1)"
        using "1.prems"(5) by (simp only: loop_inside [OF p1q q asc(1)] option.inject jsnum.inject)
      then show ?thesis using a lin_mono [OF asc "1.prems"(3)] by simp
    next
      case q: False
      then have out: "\<not> (q \<ge> p1 \<and> q \<le> p2)" by simp
      have "interpolate_loop q ((p2, f2) # rest) = Some (Fin b)"
        using "1.prems"(5) by (simp only: loop_outside [OF out])
      then have "f2 \<le> b" using loop_lower [OF tl] by fastforce
      moreover have "a \<le> f2" using a lin_bounds(2) [OF asc p1p pp2] by simp
      ultimately show ?thesis by simp
    qed
  next
    case False
    then have pgt: "p2 < p" using p1p by auto
    then have out: "\<not> (q \<ge> p1 \<and> q \<le> p2)" using "1.prems"(3) by simp
    have pa: "interpolate_loop p ((p2, f2) # rest) = Some (Fin a)"
      using "1.prems"(4) by (simp only: loop_outside [OF False])
    have qb: "interpolate_loop q ((p2, f2) # rest) = Some (Fin b)"
      using "1.prems"(5) by (simp only: loop_outside [OF out])
    have "fst (hd ((p2, f2) # rest)) \<le> p" using pgt by simp
    then show ?thesis
      using "1.IH" [OF False tl _ "1.prems"(3) pa qb] by simp
  qed
qed simp_all

lemma interpolatePT_value:
  assumes "ascending t" and "t \<noteq> []"
  shows "\<exists>v. interpolatePT (Fin p) t = Inr (Fin v) \<and> snd (hd t) \<le> v \<and> v \<le> snd (last t)"
proof -
  obtain p0 f0 rest where t: "t = (p0, f0) # rest"
    using assms(2) by (cases t) auto
  have fl: "f0 \<le> snd (last t)" "p0 \<le> fst (last t)"
    using ascending_last [of "(p0, f0)" rest] assms(1) t by simp_all
  show ?thesis
  proof (cases "p \<le> p0")
    case True
    then show ?thesis using t fl by (simp add: interpolatePT_def)
  next
    case lo: False
    show ?thesis
    proof (cases "p \<ge> fst (last t)")
      case True
      then show ?thesis using t fl lo by (simp add: interpolatePT_def)
    next
      case hi: False
      have "rest \<noteq> []" using lo hi t by auto
      then have len: "2 \<le> length t" using t by (cases rest) simp_all
      obtain v where v: "interpolate_loop p t = Some (Fin v)"
        using loop_total [OF assms(1) _ _ len, of p] lo hi t by auto
      have "f0 \<le> v" using loop_lower [OF assms(1) v] t by simp
      moreover have "v \<le> snd (last t)" using loop_upper [OF assms(1) v] .
      ultimately show ?thesis using t lo hi v by (simp add: interpolatePT_def)
    qed
  qed
qed

lemma interpolatePT_mono:
  assumes "ascending t" and "p \<le> q"
    and "interpolatePT (Fin p) t = Inr (Fin a)" and "interpolatePT (Fin q) t = Inr (Fin b)"
  shows "a \<le> b"
proof -
  have ne: "t \<noteq> []" using assms(3) by (auto simp: interpolatePT_def)
  then obtain p0 f0 rest where t: "t = (p0, f0) # rest"
    by (cases t) auto
  obtain b' where b': "interpolatePT (Fin q) t = Inr (Fin b')" "f0 \<le> b'" "b' \<le> snd (last t)"
    using interpolatePT_value [OF assms(1) ne, of q] t by auto
  then have bb: "f0 \<le> b" "b \<le> snd (last t)" using assms(4) by simp_all
  obtain a' where a': "interpolatePT (Fin p) t = Inr (Fin a')" "f0 \<le> a'" "a' \<le> snd (last t)"
    using interpolatePT_value [OF assms(1) ne, of p] t by auto
  then have aa: "f0 \<le> a" "a \<le> snd (last t)" using assms(3) by simp_all
  show ?thesis
  proof (cases "p \<le> p0")
    case True
    then have "a = f0" using assms(3) t by (simp add: interpolatePT_def)
    then show ?thesis using bb by simp
  next
    case lo: False
    then have qlo: "\<not> q \<le> p0" using assms(2) by simp
    show ?thesis
    proof (cases "q \<ge> fst (last t)")
      case True
      then have "b = snd (last t)" using assms(4) t qlo by (simp add: interpolatePT_def)
      then show ?thesis using aa by simp
    next
      case hi: False
      then have phi: "\<not> p \<ge> fst (last t)" using assms(2) by simp
      have "rest \<noteq> []" using lo phi t by auto
      then have len: "2 \<le> length t" using t by (cases rest) simp_all
      obtain v where v: "interpolate_loop p t = Some (Fin v)"
        using loop_total [OF assms(1) _ _ len, of p] lo phi t by auto
      obtain u where u: "interpolate_loop q t = Some (Fin u)"
        using loop_total [OF assms(1) _ _ len, of q] qlo hi t by auto
      have "a = v" using assms(3) t lo phi v by (simp add: interpolatePT_def)
      moreover have "b = u" using assms(4) t qlo hi u by (simp add: interpolatePT_def)
      moreover have "v \<le> u" using loop_mono [OF assms(1) _ assms(2) v u] lo t by simp
      ultimately show ?thesis by simp
    qed
  qed
qed




lemma toFixed_nonneg_mono:
  assumes "0 \<le> x" and "x \<le> y" and "y < 10 ^ 21"
  shows "toFixed d x \<le> toFixed d y"
proof -
  have "\<lfloor>x * 10 ^ d + 1 / 2\<rfloor> \<le> \<lfloor>y * 10 ^ d + 1 / 2\<rfloor>"
    using assms(2) by (intro floor_mono) (simp add: mult_right_mono)
  then have "of_int \<lfloor>x * 10 ^ d + 1 / 2\<rfloor> / (10 ^ d :: real) \<le> of_int \<lfloor>y * 10 ^ d + 1 / 2\<rfloor> / 10 ^ d"
    by (intro divide_right_mono) simp_all
  then show ?thesis
    using assms by (simp add: toFixed_def)
qed

lemma select_table_temps:
  "0 \<le> snd (hd (select_table ref)) \<and> snd (last (select_table ref)) < 10 ^ 21"
  using select_table_cases [of ref]
  by (auto simp: PT_R410A_def PT_R22_def PT_R454B_def PT_R32_def)

text \<open>
  C10. For every refrigerant code and all finite pressures \<open>p1 \<le> p2\<close>,
  \<^verbatim>\<open>psigToSaturationTemp\<close> returns finite temperatures at both, and the one at \<open>p1\<close> is
  at most the one at \<open>p2\<close>.
\<close>

theorem psigToSaturationTemp_monotone:
  assumes "p1 \<le> p2"
  shows "\<exists>a b. psigToSaturationTemp (Fin p1) ref = Inr (Fin a) \<and>
               psigToSaturationTemp (Fin p2) ref = Inr (Fin b) \<and> a \<le> b"
proof -
  let ?t = "select_table ref"
  note asc = select_table_ascending [of ref] and ne = select_table_nonempty [of ref]
  obtain u where u: "interpolatePT (Fin p1) ?t = Inr (Fin u)"
      "snd (hd ?t) \<le> u" "u \<le> snd (last ?t)"
    using interpolatePT_value [OF asc ne, of p1] by blast
  obtain v where v: "interpolatePT (Fin p2) ?t = Inr (Fin v)"
      "snd (hd ?t) \<le> v" "v \<le> snd (last ?t)"
    using interpolatePT_value [OF asc ne, of p2] by blast
  have uv: "u \<le> v"
    by (rule interpolatePT_mono [OF asc assms u(1) v(1)])
  have "0 \<le> u" "v < 10 ^ 21"
    using select_table_temps [of ref] u(2) v(3) by linarith+
  then have "toFixed 1 u \<le> toFixed 1 v"
    using uv by (intro toFixed_nonneg_mono)
  then show ?thesis
    using u(1) v(1) by (simp add: psigToSaturationTemp_def)
qed

theorem psigToSaturationTemp_monotone_witness:
  "(90::real) \<le> 110 \<and> psigToSaturationTemp (Fin 90) ''R410A'' = Inr (Fin 26) \<and>
   psigToSaturationTemp (Fin 110) ''R410A'' = Inr (Fin 33) \<and> (26::real) \<le> 33"
  using psigToSaturationTemp_monotone [of 90 110 "''R410A''"]
  by (simp add: psigToSaturationTemp_def select_table_def toUpperCase_def toUpperCase_char_def
      PT_TABLES_def PT_R410A_def interpolatePT_def toFixed_def)




section \<open>Properties of the plan generator\<close>











text \<open>
  C4. A part below 5 CFM has a branch of 0 CFM, and a part of 0 CFM has no trunk size:
  \<^verbatim>\<open>sizeRoundDuct\<close> returns \<^verbatim>\<open>null\<close> for it, and reading \<^verbatim>\<open>.dia\<close> of that throws.
  \<^verbatim>\<open>generateSubPlenumPlan(10)\<close> and \<^verbatim>\<open>generateSubPlenumPlan(4, 1)\<close> end in a \<^verbatim>\<open>TypeError\<close>.
\<close>

theorem generateSubPlenumPlan_throws:
  "generateSubPlenumPlan (Fin 10) default_split 800 700 = Inl TypeError \<and>
   generateSubPlenumPlan (Fin 4) (Count 1) 800 700 = Inl TypeError"
  by (simp add: generateSubPlenumPlan_def default_split_def Math_round_def splitCFM_def
      initial_parts_def reduce_sum_def Let_def makeSubPlenum_def makeBranch_def
      Number_isInteger_def Math_floor_def upt_rec sizeRoundDuct_def)

text \<open>The other half of C4 holds: no plan for a total that is zero or negative.\<close>

lemma generateSubPlenumPlan_null:
  "x \<le> 0 \<Longrightarrow> generateSubPlenumPlan (Fin x) split tf bf = Inr None"
proof -
  assume "x \<le> 0"
  then have "\<lfloor>x + 1 / 2\<rfloor> \<le> 0" by (simp add: floor_le_iff)
  then show ?thesis
    by (simp add: generateSubPlenumPlan_def Math_round_def Let_def)
qed

section \<open>Properties of the round-duct selector\<close>

lemma arctan_partial_sums:
  fixes x :: real
  assumes "0 < x" and "x \<le> 1"
  shows "(\<Sum>i<2 * n. (- 1) ^ i * (1 / real (i * 2 + 1) * x ^ (i * 2 + 1))) \<le> arctan x"
    and "arctan x \<le> (\<Sum>i<2 * n + 1. (- 1) ^ i * (1 / real (i * 2 + 1) * x ^ (i * 2 + 1)))"
proof -
  have ax: "\<bar>x\<bar> \<le> 1" using assms by simp
  have a0: "0 < 1 / real (0 * 2 + 1) * x ^ (0 * 2 + 1)" using assms by simp
  note L = summable_Leibniz(2) [OF zeroseq_arctan_series [OF ax] monoseq_arctan_series [OF ax],
      rule_format, OF a0, of n]
  show "(\<Sum>i<2 * n. (- 1) ^ i * (1 / real (i * 2 + 1) * x ^ (i * 2 + 1))) \<le> arctan x"
    using L by (simp add: arctan_series [OF ax])
  show "arctan x \<le> (\<Sum>i<2 * n + 1. (- 1) ^ i * (1 / real (i * 2 + 1) * x ^ (i * 2 + 1)))"
    using L by (simp add: arctan_series [OF ax])
qed

lemma pi_bounds: "3.141592 < pi" "pi < 3.14163"
proof -
  have l5: "6679449362 \<le> arctan (1 / 5) * 33837890625"
    using arctan_partial_sums(1) [of "1 / 5" 3]
    by (simp add: lessThan_nat_numeral lessThan_Suc numeral_eq_Suc)
  have u5: "arctan (1 / 5) \<le> 1 / 5 - 1 / (3 * 5 ^ 3) + 1 / (5 * 5 ^ 5)"
    using arctan_partial_sums(2) [of "1 / 5" 1]
    by (simp add: lessThan_nat_numeral lessThan_Suc numeral_eq_Suc)
  have u239: "arctan (1 / 239) \<le> 1 / 239"
    using arctan_partial_sums(2) [of "1 / 239" 0] by simp
  have l239: "1 / 239 - 1 / (3 * 239 ^ 3) \<le> arctan (1 / 239)"
    using arctan_partial_sums(1) [of "1 / 239" 1]
    by (simp add: lessThan_nat_numeral lessThan_Suc numeral_eq_Suc)
  have m: "pi = 16 * arctan (1 / 5) - 4 * arctan (1 / 239)"
    using machin by simp
  show "3.141592 < pi"
    using l5 u239 unfolding m by simp
  show "pi < 3.14163"
    using u5 l239 unfolding m by simp
qed

lemma backsolved_diameter_large: "30 < sqrt ((50000 / 800 * 144 * 4) / pi)"
proof -
  have "pi < 4" by (rule pi_less_4)
  then have "900 < (50000 / 800 * 144 * 4) / pi"
    using pi_gt_zero by (simp add: field_simps)
  then have "sqrt 900 < sqrt ((50000 / 800 * 144 * 4) / pi)"
    by (simp only: real_sqrt_less_iff)
  moreover have "sqrt 900 = 30"
    using real_sqrt_abs [of 30] by simp
  ultimately show ?thesis by simp
qed

lemma unclamped_diameter_large:
  "24 < Math_round (sqrt ((50000 / 800 * 144 * 4) / pi) / 2) * 2"
proof -
  let ?d0 = "sqrt ((50000 / 800 * 144 * 4) / pi)"
  have "(15::real) \<le> ?d0 / 2 + 1 / 2"
    using backsolved_diameter_large by simp
  then have "15 \<le> \<lfloor>?d0 / 2 + 1 / 2\<rfloor>"
    by (simp only: le_floor_iff of_int_numeral)
  then have "(15::real) \<le> of_int \<lfloor>?d0 / 2 + 1 / 2\<rfloor>"
    by linarith
  then show ?thesis
    unfolding Math_round_def by linarith
qed

lemma velocity_at_pi: "velocity (Fin 50000) (Fin pi) = Some 15915"
proof -
  have lo: "15915 \<le> 50000 / pi + 1 / 2"
    using pi_bounds(2) pi_gt_zero by (simp add: field_simps)
  have hi: "50000 / pi + 1 / 2 < 15915 + 1"
    using pi_bounds(1) pi_gt_zero by (simp add: field_simps)
  have fl: "\<lfloor>50000 / pi + 1 / 2\<rfloor> = 15915"
    using lo hi by (simp only: floor_eq_iff of_int_numeral)
  have small: "\<not> 10 ^ 21 \<le> 50000 / pi"
    using hi by simp
  have nn: "\<not> 50000 / pi < 0"
    using pi_gt_zero by (simp add: not_less)
  have ab: "\<bar>50000 / pi\<bar> = 50000 / pi"
    using pi_gt_zero by simp
  have "toFixed 0 (50000 / pi) = 15915"
    unfolding toFixed_def ab using small nn fl by simp
  moreover have "\<not> pi \<le> 0"
    using pi_gt_zero by (simp only: not_le)
  ultimately show ?thesis
    by (simp add: velocity_def)
qed

lemma toFixed_pi: "toFixed 3 pi = 3.142"
proof -
  have lo: "3142 \<le> pi * 1000 + 1 / 2"
    using pi_bounds(1) by simp
  have hi: "pi * 1000 + 1 / 2 < 3142 + 1"
    using pi_bounds(2) by simp
  have fl: "\<lfloor>pi * 1000 + 1 / 2\<rfloor> = 3142"
    using lo hi by (simp only: floor_eq_iff of_int_numeral)
  have ab: "\<bar>pi\<bar> = pi" using pi_gt_zero by simp
  have small: "\<not> 10 ^ 21 \<le> pi" using pi_less_4 by simp
  have nn: "\<not> pi < 0" using pi_gt_zero by (simp add: not_less)
  show ?thesis
    unfolding toFixed_def ab using small nn fl by simp
qed

lemma areaRound_24: "areaRound 24 = pi"
  by (simp add: areaRound_def)

text \<open>
  C6. \<^verbatim>\<open>sizeRoundDuct(50000, 800, 8, 24, true)\<close> has diameter 24, the rounded back-solved
  diameter being above 24, and velocity 15915 FPM, not the target 800. Whenever
  \<^verbatim>\<open>sizeRoundDuct\<close> returns a size with a finite diameter, its velocity is
  \<^verbatim>\<open>velocity(cfm, areaRound(dia))\<close>, and for a positive target the diameter is the rounded
  back-solved one clamped into \<open>[minDia, maxDia]\<close>.
\<close>

theorem sizeRoundDuct_clamps_and_reports_velocity:
  "sizeRoundDuct (Fin 50000) 800 8 24 True =
     Some \<lparr>dia = Fin 24, fpm = Some 15915, areaFt2 = Fin 3.142\<rparr> \<and>
   24 < Math_round (sqrt ((50000 / 800 * 144 * 4) / pi) / 2) * 2 \<and>
   (\<forall>cfm targetFPM minDia maxDia toEven r d.
      sizeRoundDuct cfm targetFPM minDia maxDia toEven = Some r \<longrightarrow> dia r = Fin d \<longrightarrow>
      fpm r = velocity cfm (Fin (areaRound d)) \<and>
      (0 < targetFPM \<longrightarrow>
         (\<exists>c. cfm = Fin c \<and>
            d = max minDia (min maxDia
                  (if toEven then Math_round (sqrt ((c / targetFPM * 144 * 4) / pi) / 2) * 2
                   else Math_round (sqrt ((c / targetFPM * 144 * 4) / pi)))))))"
proof (intro conjI allI impI)
  have "min 24 (Math_round (sqrt ((50000 / 800 * 144 * 4) / pi) / 2) * 2) = 24"
    using unclamped_diameter_large by (simp only: min_def) simp
  then show "sizeRoundDuct (Fin 50000) 800 8 24 True =
      Some \<lparr>dia = Fin 24, fpm = Some 15915, areaFt2 = Fin 3.142\<rparr>"
    by (simp add: sizeRoundDuct_def Let_def areaRound_24 velocity_at_pi toFixed_pi)
  show "24 < Math_round (sqrt ((50000 / 800 * 144 * 4) / pi) / 2) * 2"
    by (rule unclamped_diameter_large)
next
  fix cfm targetFPM minDia maxDia toEven r d
  assume r: "sizeRoundDuct cfm targetFPM minDia maxDia toEven = Some r" and d: "dia r = Fin d"
  show "fpm r = velocity cfm (Fin (areaRound d))"
    using r d by (auto simp: sizeRoundDuct_def Let_def split: jsnum.splits if_splits)
  assume "0 < targetFPM"
  then show "\<exists>c. cfm = Fin c \<and>
            d = max minDia (min maxDia
                  (if toEven then Math_round (sqrt ((c / targetFPM * 144 * 4) / pi) / 2) * 2
                   else Math_round (sqrt ((c / targetFPM * 144 * 4) / pi))))"
    using r d by (auto simp: sizeRoundDuct_def Let_def split: jsnum.splits if_splits)
qed

theorem sizeRoundDuct_clamps_and_reports_velocity_witness:
  "sizeRoundDuct (Fin 50000) 800 8 24 True =
     Some \<lparr>dia = Fin 24, fpm = Some 15915, areaFt2 = Fin 3.142\<rparr> \<and>
   dia \<lparr>dia = Fin 24, fpm = Some 15915, areaFt2 = Fin 3.142\<rparr> = Fin 24 \<and>
   (0::real) < 800 \<and>
   velocity (Fin 50000) (Fin (areaRound 24)) = Some 15915 \<and>
   (24::real) = max 8 (min 24 (Math_round (sqrt ((50000 / 800 * 144 * 4) / pi) / 2) * 2))"
proof -
  note t = sizeRoundDuct_clamps_and_reports_velocity
  have r: "sizeRoundDuct (Fin 50000) 800 8 24 True =
     Some \<lparr>dia = Fin 24, fpm = Some 15915, areaFt2 = Fin 3.142\<rparr>"
    by (rule t [THEN conjunct1])
  have d: "dia \<lparr>dia = Fin 24, fpm = Some 15915, areaFt2 = Fin 3.142\<rparr> = Fin 24"
    by simp
  have pos: "(0::real) < 800" by simp
  note g = t [THEN conjunct2, THEN conjunct2, rule_format, OF r d]
  have v: "velocity (Fin 50000) (Fin (areaRound 24)) = Some 15915"
    using g [THEN conjunct1] by simp
  have c: "(24::real) = max 8 (min 24 (Math_round (sqrt ((50000 / 800 * 144 * 4) / pi) / 2) * 2))"
    using g [THEN conjunct2, rule_format, OF pos] by simp
  show ?thesis using r d pos v c by (intro conjI)
qed

section \<open>Properties of the friction rate\<close>




section \<open>Properties of the health evaluation\<close>

lemma is_txv_examples: "is_txv (Some ''txv'')" "is_txv (Some ''TXV'')" "\<not> is_txv (Some ''fixed'')"
  by (simp_all add: is_txv_def toLowerCase_def toLowerCase_char_def)

text \<open>
  C9. \<^verbatim>\<open>evaluateCoolingHealth({deltaT: 14, meteringDevice: 'txv'})\<close> is the single message
  that delta-T is in the expected range, of level \<^verbatim>\<open>ok\<close>. Whatever the other readings,
  the first message for a finite delta-T \<open>d\<close> warns of a low delta-T when \<open>d < 14\<close>, of a
  high one when \<open>d > 24\<close>, and is the \<^verbatim>\<open>ok\<close> message otherwise.
\<close>

theorem deltaT_14_is_ok:
  "evaluateCoolingHealth
     \<lparr>deltaT = Some (Fin 14), superheat = None, subcool = None, meteringDevice = Some ''txv''\<rparr> =
     [\<lparr>level = ''ok'', message = Delta_T_in_expected_range 14\<rparr>] \<and>
   (\<forall>r d. hd (evaluateCoolingHealth (r\<lparr>deltaT := Some (Fin d)\<rparr>)) =
      (if d < 14 then \<lparr>level = ''warn'', message = Low_delta_T d\<rparr>
       else if d > 24 then \<lparr>level = ''warn'', message = High_delta_T d\<rparr>
       else \<lparr>level = ''ok'', message = Delta_T_in_expected_range d\<rparr>))"
  by (simp add: evaluateCoolingHealth_def is_txv_examples Let_def)

text \<open>
  C3 as stated fails: with a fixed orifice a superheat of 9 is not below the floor, which
  is 8, and the message is of level \<^verbatim>\<open>ok\<close>.
\<close>

theorem fixed_orifice_superheat_9_counterexample:
  "evaluateCoolingHealth
     \<lparr>deltaT = None, superheat = Some (Fin 9), subcool = None, meteringDevice = Some ''fixed''\<rparr> =
     [\<lparr>level = ''ok'', message = Superheat_acceptable_for_fixed_orifice 9\<rparr>]"
  by (simp add: evaluateCoolingHealth_def is_txv_examples Let_def)

text \<open>
  C3, as amended. A superheat of 9 is \<^verbatim>\<open>ok\<close> with a TXV and \<^verbatim>\<open>ok\<close> with a fixed orifice,
  in two different sentences. The levels of the two devices differ for a superheat from 5
  up to, not including, 8: \<^verbatim>\<open>ok\<close> with a TXV, a warning of low superheat (overcharge or
  low airflow) with a fixed orifice.
\<close>

theorem superheat_device_paths:
  "evaluateCoolingHealth
     \<lparr>deltaT = None, superheat = Some (Fin 9), subcool = None, meteringDevice = Some ''txv''\<rparr> =
     [\<lparr>level = ''ok'', message = Superheat_reasonable 9\<rparr>] \<and>
   evaluateCoolingHealth
     \<lparr>deltaT = None, superheat = Some (Fin 9), subcool = None, meteringDevice = Some ''fixed''\<rparr> =
     [\<lparr>level = ''ok'', message = Superheat_acceptable_for_fixed_orifice 9\<rparr>] \<and>
   (\<forall>sh md. 5 \<le> sh \<longrightarrow> sh < 8 \<longrightarrow>
      evaluateCoolingHealth
        \<lparr>deltaT = None, superheat = Some (Fin sh), subcool = None, meteringDevice = md\<rparr> =
        (if is_txv md then [\<lparr>level = ''ok'', message = Superheat_reasonable sh\<rparr>]
         else [\<lparr>level = ''warn'', message = Low_superheat_overcharge_or_low_airflow sh\<rparr>]))"
  by (simp add: evaluateCoolingHealth_def is_txv_examples Let_def)

theorem superheat_device_paths_witness:
  "(5::real) \<le> 6 \<and> (6::real) < 8 \<and>
   evaluateCoolingHealth
     \<lparr>deltaT = None, superheat = Some (Fin 6), subcool = None, meteringDevice = Some ''TXV''\<rparr> =
     [\<lparr>level = ''ok'', message = Superheat_reasonable 6\<rparr>] \<and>
   evaluateCoolingHealth
     \<lparr>deltaT = None, superheat = Some (Fin 6), subcool = None, meteringDevice = Some ''fixed''\<rparr> =
     [\<lparr>level = ''warn'', message = Low_superheat_overcharge_or_low_airflow 6\<rparr>]"
  using superheat_device_paths [THEN conjunct2, THEN conjunct2, rule_format, of 6 "Some ''TXV''"]
    superheat_device_paths [THEN conjunct2, THEN conjunct2, rule_format, of 6 "Some ''fixed''"]
  by (simp add: is_txv_examples)

end
